theory Spec2Isabelle
  imports Complex_Main "HOL-Library.Word" "HOL-Library.Sublist"
begin

section \<open>The todo API of the backend (server.js)\<close>

text \<open>
  The backend keeps two module-level variables, \<^verbatim>\<open>todos\<close> (an array of records) and
  \<^verbatim>\<open>nextId\<close> (a counter), and serves four routes. Each route handler is modelled as a
  function from the store before the request to the response and the store after it.

  Conventions of the model:
  \<^item> a JavaScript string is the list of its UTF-16 code units;
  \<^item> the Numbers the program handles (the counter, the identifiers, what
    \<^verbatim>\<open>parseInt\<close> returns) are integers and are modelled as \<open>int\<close>. A Number holds
    every integer of magnitude up to \<open>2^53\<close> exactly; the rounding of larger
    magnitudes is floating point and is not part of the model;
  \<^item> \<^verbatim>\<open>NaN\<close>, the only non-integer \<^verbatim>\<open>parseInt\<close> produces here, is \<open>None\<close>;
  \<^item> the clock reading \<^verbatim>\<open>new Date().toISOString()\<close> is an input of the request.
\<close>

subsection \<open>Strings\<close>

type_synonym jschar = "16 word"
type_synonym jsstring = "jschar list"

text \<open>The code units of an ASCII literal of the source.\<close>

definition js :: "string \<Rightarrow> jsstring" where
  "js s = map (\<lambda>c. of_char c) s"

text \<open>
  White space and line terminators of ECMAScript, the code units that
  \<^verbatim>\<open>String.prototype.trim\<close> strips and \<^verbatim>\<open>parseInt\<close> skips: TAB, LF, VT, FF, CR,
  SP, NBSP, the other space separators of Unicode, LS, PS and the byte order mark.
\<close>

definition isWhiteSpace :: "jschar \<Rightarrow> bool" where
  "isWhiteSpace c =
     (c = 0x09 \<or> c = 0x0A \<or> c = 0x0B \<or> c = 0x0C \<or> c = 0x0D \<or> c = 0x20 \<or> c = 0xA0
      \<or> c = 0x1680 \<or> (0x2000 \<le> c \<and> c \<le> 0x200A) \<or> c = 0x2028 \<or> c = 0x2029
      \<or> c = 0x202F \<or> c = 0x205F \<or> c = 0x3000 \<or> c = 0xFEFF)"

text \<open>\<^verbatim>\<open>text.trim()\<close>: white space removed from both ends.\<close>

definition trim :: "jsstring \<Rightarrow> jsstring" where
  "trim s = rev (dropWhile isWhiteSpace (rev (dropWhile isWhiteSpace s)))"

subsection \<open>parseInt without a radix\<close>

text \<open>The value of a code unit as a digit: \<open>0-9\<close>, then \<open>A-Z\<close> and \<open>a-z\<close> for 10 to 35.\<close>

definition digitValue :: "jschar \<Rightarrow> nat option" where
  "digitValue c =
     (if 0x30 \<le> c \<and> c \<le> 0x39 then Some (unat c - 48)
      else if 0x41 \<le> c \<and> c \<le> 0x5A then Some (unat c - 55)
      else if 0x61 \<le> c \<and> c \<le> 0x7A then Some (unat c - 87)
      else None)"

definition isRadixDigit :: "nat \<Rightarrow> jschar \<Rightarrow> bool" where
  "isRadixDigit R c = (case digitValue c of Some d \<Rightarrow> d < R | None \<Rightarrow> False)"

text \<open>The integer a string of radix-\<open>R\<close> digits denotes, most significant digit first.\<close>

definition mathInt :: "nat \<Rightarrow> jsstring \<Rightarrow> nat" where
  "mathInt R Z = foldl (\<lambda>a c. a * R + (case digitValue c of Some d \<Rightarrow> d | None \<Rightarrow> 0)) 0 Z"

text \<open>
  \<^verbatim>\<open>parseInt(string)\<close> as ECMAScript defines it when no radix is given: leading white
  space is skipped, one sign is read, a prefix \<^verbatim>\<open>0x\<close> or \<^verbatim>\<open>0X\<close> selects radix 16
  (radix 10 otherwise), and the longest run of digits that follows is the number.
  Whatever comes after that run is ignored. The result is \<^verbatim>\<open>NaN\<close> (\<open>None\<close>) exactly
  when the run is empty.
\<close>

definition signOf :: "jsstring \<Rightarrow> int" where
  "signOf S = (if S \<noteq> [] \<and> hd S = 0x2D then - 1 else 1)"

definition skipSign :: "jsstring \<Rightarrow> jsstring" where
  "skipSign S = (if S \<noteq> [] \<and> (hd S = 0x2B \<or> hd S = 0x2D) then tl S else S)"

definition hasHexPrefix :: "jsstring \<Rightarrow> bool" where
  "hasHexPrefix S = (2 \<le> length S \<and> (take 2 S = [0x30, 0x78] \<or> take 2 S = [0x30, 0x58]))"

definition parseInt :: "jsstring \<Rightarrow> int option" where
  "parseInt inputString =
     (let S = dropWhile isWhiteSpace inputString;
          sign = signOf S;
          S = skipSign S;
          stripPrefix = hasHexPrefix S;
          R = (if stripPrefix then 16 else 10);
          S = (if stripPrefix then drop 2 S else S);
          Z = takeWhile (isRadixDigit R) S
      in if Z = [] then None else Some (sign * int (mathInt R Z)))"

subsection \<open>JSON values, records and the store\<close>

text \<open>
  What \<^verbatim>\<open>express.json()\<close> leaves in \<^verbatim>\<open>req.body\<close> when it hands the request to
  the route: an object, read here as a map from property names to JSON values. A
  property that is absent reads as \<^verbatim>\<open>undefined\<close>, which is \<open>None\<close>. Of a number
  the handlers only ask whether it is zero and what its type is. A body that is not
  JSON never reaches the route: the middleware answers it.
\<close>

datatype jsvalue =
    JNull
  | JBoolean bool
  | JNumber real
  | JString jsstring
  | JArray "jsvalue list"
  | JObject "(jsstring \<times> jsvalue) list"

datatype jstype = TUndefined | TObject | TBoolean | TNumber | TString

text \<open>\<^verbatim>\<open>typeof\<close>; \<^verbatim>\<open>null\<close> and arrays are objects.\<close>

fun typeof :: "jsvalue option \<Rightarrow> jstype" where
  "typeof None = TUndefined"
| "typeof (Some JNull) = TObject"
| "typeof (Some (JBoolean b)) = TBoolean"
| "typeof (Some (JNumber n)) = TNumber"
| "typeof (Some (JString s)) = TString"
| "typeof (Some (JArray xs)) = TObject"
| "typeof (Some (JObject kvs)) = TObject"

text \<open>
  Truthiness, as \<^verbatim>\<open>!text\<close> tests it: \<^verbatim>\<open>undefined\<close>, \<^verbatim>\<open>null\<close>, \<^verbatim>\<open>false\<close>,
  zero and the empty string are falsy, every object is truthy.
\<close>

fun truthy :: "jsvalue option \<Rightarrow> bool" where
  "truthy None = False"
| "truthy (Some JNull) = False"
| "truthy (Some (JBoolean b)) = b"
| "truthy (Some (JNumber n)) = (n \<noteq> 0)"
| "truthy (Some (JString s)) = (s \<noteq> [])"
| "truthy (Some (JArray xs)) = True"
| "truthy (Some (JObject kvs)) = True"

record todo =
  todo_id :: int
  todo_text :: jsstring
  createdAt :: jsstring

text \<open>The two module-level variables.\<close>

record store =
  todos :: "todo list"
  nextId :: int

text \<open>\<^verbatim>\<open>let todos = []; let nextId = 1;\<close>\<close>

definition initial :: store where
  "initial = \<lparr>todos = [], nextId = 1\<rparr>"

text \<open>The environment variables the process reads at start.\<close>

record env =
  env_APP_NAME :: "jsstring option"
  env_APP_DESCRIPTION :: "jsstring option"

text \<open>\<^verbatim>\<open>process.env.X || default\<close>: an unset or empty variable gives the default.\<close>

definition orDefault :: "jsstring option \<Rightarrow> jsstring \<Rightarrow> jsstring" where
  "orDefault v d = (case v of None \<Rightarrow> d | Some x \<Rightarrow> if x = [] then d else x)"

definition APP_NAME :: "env \<Rightarrow> jsstring" where
  "APP_NAME e = orDefault (env_APP_NAME e) (js ''Todo SaaS'')"

definition APP_DESCRIPTION :: "env \<Rightarrow> jsstring" where
  "APP_DESCRIPTION e =
     orDefault (env_APP_DESCRIPTION e) (js ''Simple, clean, and efficient task management'')"

subsection \<open>Responses\<close>

datatype body =
    Todos "todo list"
  | Created todo
  | Error string
  | Health string jsstring jsstring jsstring
  | Empty

record response =
  status :: nat
  body :: body

subsection \<open>Array operations\<close>

text \<open>
  \<^verbatim>\<open>findIndex\<close>: the index of the first element the predicate accepts, \<open>-1\<close> when it
  accepts none.
\<close>

fun findIndexFrom :: "int \<Rightarrow> ('a \<Rightarrow> bool) \<Rightarrow> 'a list \<Rightarrow> int" where
  "findIndexFrom k P [] = - 1"
| "findIndexFrom k P (x # xs) = (if P x then k else findIndexFrom (k + 1) P xs)"

definition findIndex :: "('a \<Rightarrow> bool) \<Rightarrow> 'a list \<Rightarrow> int" where
  "findIndex P xs = findIndexFrom 0 P xs"

text \<open>
  \<^verbatim>\<open>splice(start, deleteCount)\<close> with nothing inserted: the array that is left. A
  negative start counts from the end, and both numbers are clamped to the array.
\<close>

definition splice_js :: "int \<Rightarrow> int \<Rightarrow> 'a list \<Rightarrow> 'a list" where
  "splice_js start deleteCount xs =
     (let len = int (length xs);
          actualStart = (if start < 0 then max (len + start) 0 else min start len);
          actualDeleteCount = min (max deleteCount 0) (len - actualStart)
      in take (nat actualStart) xs @ drop (nat (actualStart + actualDeleteCount)) xs)"

subsection \<open>The route handlers\<close>

text \<open>\<^verbatim>\<open>app.get('/api/todos')\<close>\<close>

definition get_todos :: "store \<Rightarrow> response \<times> store" where
  "get_todos s = (\<lparr>status = 200, body = Todos (todos s)\<rparr>, s)"

text \<open>
  \<^verbatim>\<open>app.post('/api/todos')\<close>. The third disjunct of the test is reached only for a
  string, as in the source, where \<^verbatim>\<open>||\<close> evaluates left to right. A text that
  passes the test is a string, so the last case of \<open>post_todos\<close> is never taken; it
  is there because a \<^theory_text>\<open>case\<close> covers every value.
\<close>

definition rejected :: "jsvalue option \<Rightarrow> bool" where
  "rejected text =
     (\<not> truthy text \<or> typeof text \<noteq> TString
      \<or> (case text of Some (JString x) \<Rightarrow> trim x = [] | _ \<Rightarrow> False))"

definition post_todos :: "jsstring \<Rightarrow> (jsstring \<rightharpoonup> jsvalue) \<Rightarrow> store \<Rightarrow> response \<times> store" where
  "post_todos now reqBody s =
     (let text = reqBody (js ''text'') in
      if rejected text then
        (\<lparr>status = 400, body = Error ''Text is required and must be a non-empty string''\<rparr>, s)
      else
        (case text of
           Some (JString x) \<Rightarrow>
             (let newTodo = \<lparr>todo_id = nextId s, todo_text = trim x, createdAt = now\<rparr>;
                  s = s\<lparr>nextId := nextId s + 1\<rparr>;
                  s = s\<lparr>todos := todos s @ [newTodo]\<rparr>
              in (\<lparr>status = 201, body = Created newTodo\<rparr>, s))
         | _ \<Rightarrow>
             (\<lparr>status = 400, body = Error ''Text is required and must be a non-empty string''\<rparr>, s)))"

text \<open>\<^verbatim>\<open>app.delete('/api/todos/:id')\<close>, on the path parameter \<^verbatim>\<open>req.params.id\<close>.\<close>

definition delete_todo :: "jsstring \<Rightarrow> store \<Rightarrow> response \<times> store" where
  "delete_todo param s =
     (case parseInt param of
        None \<Rightarrow> (\<lparr>status = 400, body = Error ''Invalid todo ID''\<rparr>, s)
      | Some i \<Rightarrow>
          (let todoIndex = findIndex (\<lambda>t. todo_id t = i) (todos s) in
           if todoIndex = - 1 then (\<lparr>status = 404, body = Error ''Todo not found''\<rparr>, s)
           else (\<lparr>status = 204, body = Empty\<rparr>, s\<lparr>todos := splice_js todoIndex 1 (todos s)\<rparr>)))"

text \<open>\<^verbatim>\<open>app.get('/api/health')\<close>\<close>

definition get_health :: "env \<Rightarrow> jsstring \<Rightarrow> store \<Rightarrow> response \<times> store" where
  "get_health e now s =
     (\<lparr>status = 200, body = Health ''OK'' now (APP_NAME e) (APP_DESCRIPTION e)\<rparr>, s)"

subsection \<open>Requests and runs\<close>

datatype request =
    GET_todos
  | POST_todos jsstring "jsstring \<rightharpoonup> jsvalue"
  | DELETE_todo jsstring
  | GET_health jsstring

fun handle :: "env \<Rightarrow> request \<Rightarrow> store \<Rightarrow> response \<times> store" where
  "handle e GET_todos s = get_todos s"
| "handle e (POST_todos now reqBody) s = post_todos now reqBody s"
| "handle e (DELETE_todo param) s = delete_todo param s"
| "handle e (GET_health now) s = get_health e now s"

text \<open>
  Requests are served one at a time, each to completion. A run serves a list of
  requests in order and gives the responses and the store it ends in.
\<close>

fun run :: "env \<Rightarrow> request list \<Rightarrow> store \<Rightarrow> response list \<times> store" where
  "run e [] s = ([], s)"
| "run e (r # rs) s =
     (let (resp, s') = handle e r s; (resps, s'') = run e rs s' in (resp # resps, s''))"

subsection \<open>What a run shows from outside\<close>

text \<open>
  The records a run has created, in the order of their creation: the bodies of its
  \<open>201\<close> responses. Records deleted later stay in this list.
\<close>

fun created :: "response list \<Rightarrow> todo list" where
  "created [] = []"
| "created (r # rs) = (case body r of Created t \<Rightarrow> t # created rs | _ \<Rightarrow> created rs)"

subsection \<open>Identifiers as text\<close>

text \<open>
  The reading of ``the identifier denotes an integer'' that the interface description
  suggests: an optional sign and then decimal digits, at least one, and nothing else.
  The handler does not use it; it is here to be compared with \<open>parseInt\<close>.
\<close>

definition isDecimalDigit :: "jschar \<Rightarrow> bool" where
  "isDecimalDigit c = (0x30 \<le> c \<and> c \<le> 0x39)"

definition denotes_integer :: "jsstring \<Rightarrow> bool" where
  "denotes_integer s =
     (let d = (if s \<noteq> [] \<and> (hd s = 0x2B \<or> hd s = 0x2D) then tl s else s)
      in d \<noteq> [] \<and> list_all isDecimalDigit d)"

text \<open>
  How the user interface writes an identifier into the path
  (\<^verbatim>\<open>`${API_BASE_URL}/todos/${id}`\<close> in \<^verbatim>\<open>deleteTodo\<close> of App.tsx, where
  \<^verbatim>\<open>id\<close> is a number): the decimal digits of the integer, after a minus sign when
  it is negative. This is what Number-to-string conversion gives for an integer of
  magnitude below \<open>10^21\<close>.
\<close>

definition digitChar :: "nat \<Rightarrow> jschar" where
  "digitChar d = of_nat (48 + d)"

fun digits :: "nat \<Rightarrow> jsstring" where
  "digits n = (if n < 10 then [digitChar n] else digits (n div 10) @ [digitChar (n mod 10)])"

declare digits.simps [simp del]

definition decimal :: "int \<Rightarrow> jsstring" where
  "decimal i = (if i < 0 then 0x2D # digits (nat (- i)) else digits (nat i))"

subsection \<open>The invariant of the store\<close>

text \<open>A text with no white space around it: not empty, and neither end is white space.\<close>

definition cleanText :: "jsstring \<Rightarrow> bool" where
  "cleanText t = (t \<noteq> [] \<and> \<not> isWhiteSpace (hd t) \<and> \<not> isWhiteSpace (last t))"

text \<open>
  The invariant of the store: the identifiers of the records differ from each other,
  each is at least 1 and below the counter, which is at least 1 itself, and each text
  is clean.
\<close>

definition store_inv :: "store \<Rightarrow> bool" where
  "store_inv s =
     (distinct (map todo_id (todos s)) \<and> 1 \<le> nextId s
      \<and> (\<forall>t\<in>set (todos s). 1 \<le> todo_id t \<and> todo_id t < nextId s \<and> cleanText (todo_text t)))"

subsection \<open>Inputs for examples\<close>

text \<open>No variable set in the environment, and the request body \<^verbatim>\<open>{text: x}\<close>.\<close>

definition env0 :: env where
  "env0 = \<lparr>env_APP_NAME = None, env_APP_DESCRIPTION = None\<rparr>"

definition text_body :: "jsstring \<Rightarrow> (jsstring \<rightharpoonup> jsvalue)" where
  "text_body x = [js ''text'' \<mapsto> JString x]"

section \<open>Properties\<close>

subsection \<open>Array operations\<close>

lemma findIndexFrom_none:
  "0 \<le> k \<Longrightarrow> (findIndexFrom k P xs = - 1) = (\<forall>x\<in>set xs. \<not> P x)"
proof (induction xs arbitrary: k)
  case Nil
  then show ?case by simp
next
  case (Cons x xs)
  from Cons.prems have "0 \<le> k + 1" by simp
  from Cons.IH [OF this] Cons.prems show ?case by auto
qed

lemma findIndexFrom_some:
  "\<exists>x\<in>set xs. P x \<Longrightarrow>
   findIndexFrom k P xs = k + int (length (takeWhile (\<lambda>x. \<not> P x) xs))"
proof (induction xs arbitrary: k)
  case Nil
  then show ?case by simp
next
  case (Cons y ys)
  show ?case
  proof (cases "P y")
    case True
    then show ?thesis by simp
  next
    case False
    with Cons.prems have "\<exists>x\<in>set ys. P x" by auto
    from Cons.IH [OF this, of "k + 1"] False show ?thesis by simp
  qed
qed

lemma findIndex_none: "(findIndex P xs = - 1) = (\<forall>x\<in>set xs. \<not> P x)"
  by (simp add: findIndex_def findIndexFrom_none)

lemma findIndex_some:
  "\<exists>x\<in>set xs. P x \<Longrightarrow> findIndex P xs = int (length (takeWhile (\<lambda>x. \<not> P x) xs))"
  by (simp add: findIndex_def findIndexFrom_some)

lemma splice_js_one:
  "splice_js (int (length xs)) 1 (xs @ y # ys) = xs @ ys"
proof -
  have "nat (int (length xs) + 1) = Suc (length xs)" by simp
  then show ?thesis by (simp add: splice_js_def Let_def)
qed

lemma split_first:
  "\<exists>x\<in>set xs. P x \<Longrightarrow>
   \<exists>as b bs. xs = as @ b # bs \<and> P b \<and> (\<forall>a\<in>set as. \<not> P a) \<and> as = takeWhile (\<lambda>x. \<not> P x) xs"
proof -
  assume a: "\<exists>x\<in>set xs. P x"
  let ?as = "takeWhile (\<lambda>x. \<not> P x) xs" and ?r = "dropWhile (\<lambda>x. \<not> P x) xs"
  from a have "?r \<noteq> []" by auto
  then obtain b bs where r: "?r = b # bs" by (cases ?r) auto
  then have "P b" using hd_dropWhile [of "\<lambda>x. \<not> P x" xs] by auto
  moreover have "xs = ?as @ b # bs" using r takeWhile_dropWhile_id [of "\<lambda>x. \<not> P x" xs] by simp
  moreover have "\<forall>a\<in>set ?as. \<not> P a" by (auto dest: set_takeWhileD)
  ultimately show ?thesis by blast
qed

subsection \<open>Deleting\<close>

lemma delete_todo_absent:
  "parseInt p = Some i \<Longrightarrow> \<forall>t\<in>set (todos s). todo_id t \<noteq> i \<Longrightarrow>
   delete_todo p s = (\<lparr>status = 404, body = Error ''Todo not found''\<rparr>, s)"
  by (simp add: delete_todo_def findIndex_none)

lemma delete_todo_present:
  assumes "parseInt p = Some i" and "todos s = as @ b # bs" and "todo_id b = i"
    and "\<forall>a\<in>set as. todo_id a \<noteq> i"
  shows "delete_todo p s = (\<lparr>status = 204, body = Empty\<rparr>, s\<lparr>todos := as @ bs\<rparr>)"
proof -
  have ex: "\<exists>x\<in>set (todos s). todo_id x = i" using assms by auto
  have "takeWhile (\<lambda>x. todo_id x \<noteq> i) (as @ b # bs) = as"
    using assms by (simp add: takeWhile_append2)
  then have "findIndex (\<lambda>t. todo_id t = i) (todos s) = int (length as)"
    using findIndex_some [OF ex] assms by simp
  then show ?thesis using assms by (simp add: delete_todo_def splice_js_one)
qed


subsection \<open>Validation and trimming\<close>

lemma trim_Nil: "trim [] = []"
  by (simp add: trim_def)

lemma not_rejected_iff:
  "(\<not> rejected t) = (\<exists>x. t = Some (JString x) \<and> trim x \<noteq> [])"
proof (cases t)
  case None
  then show ?thesis by (simp add: rejected_def)
next
  case (Some v)
  then show ?thesis by (cases v) (auto simp: rejected_def trim_Nil)
qed

lemma post_todos_rejected:
  "rejected (reqBody (js ''text'')) \<Longrightarrow>
   post_todos now reqBody s =
     (\<lparr>status = 400, body = Error ''Text is required and must be a non-empty string''\<rparr>, s)"
  by (simp add: post_todos_def)

lemma post_todos_accepted:
  "reqBody (js ''text'') = Some (JString x) \<Longrightarrow> trim x \<noteq> [] \<Longrightarrow>
   post_todos now reqBody s =
     (\<lparr>status = 201, body = Created \<lparr>todo_id = nextId s, todo_text = trim x, createdAt = now\<rparr>\<rparr>,
      \<lparr>todos = todos s @ [\<lparr>todo_id = nextId s, todo_text = trim x, createdAt = now\<rparr>],
       nextId = nextId s + 1\<rparr>)"
  using not_rejected_iff [of "Some (JString x)"]
  by (simp add: post_todos_def Let_def)


lemma rev_split_end:
  "xs = rev (dropWhile P (rev xs)) @ rev (takeWhile P (rev xs))"
proof -
  have "rev (takeWhile P (rev xs) @ dropWhile P (rev xs)) = rev (rev xs)"
    by (simp only: takeWhile_dropWhile_id)
  then show ?thesis by (simp only: rev_append rev_rev_ident)
qed

lemma trim_decompose:
  "\<exists>l r. x = l @ trim x @ r \<and> (\<forall>c\<in>set l. isWhiteSpace c) \<and> (\<forall>c\<in>set r. isWhiteSpace c)"
proof -
  let ?l = "takeWhile isWhiteSpace x" and ?m = "dropWhile isWhiteSpace x"
  let ?r = "rev (takeWhile isWhiteSpace (rev ?m))"
  have m: "?m = trim x @ ?r"
    using rev_split_end [of ?m isWhiteSpace] by (simp only: trim_def)
  have "x = ?l @ ?m" by simp
  with m have "x = ?l @ trim x @ ?r" by simp
  moreover have "\<forall>c\<in>set ?l. isWhiteSpace c" by (auto dest: set_takeWhileD)
  moreover have "\<forall>c\<in>set ?r. isWhiteSpace c" by (auto dest: set_takeWhileD)
  ultimately show ?thesis by blast
qed

lemma trim_hd: "trim x \<noteq> [] \<Longrightarrow> \<not> isWhiteSpace (hd (trim x))"
proof -
  assume ne: "trim x \<noteq> []"
  let ?m = "dropWhile isWhiteSpace x"
  let ?r = "rev (takeWhile isWhiteSpace (rev ?m))"
  have m: "?m = trim x @ ?r"
    using rev_split_end [of ?m isWhiteSpace] by (simp only: trim_def)
  have "?m \<noteq> []"
  proof
    assume "?m = []"
    with m have "trim x @ ?r = []" by (simp only:)
    with ne show False by simp
  qed
  then have "\<not> isWhiteSpace (hd ?m)" using hd_dropWhile by blast
  moreover have "hd ?m = hd (trim x)" using ne hd_append2 [of "trim x" ?r] m by simp
  ultimately show ?thesis by simp
qed

lemma trim_last: "trim x \<noteq> [] \<Longrightarrow> \<not> isWhiteSpace (last (trim x))"
proof -
  assume ne: "trim x \<noteq> []"
  let ?d = "dropWhile isWhiteSpace (rev (dropWhile isWhiteSpace x))"
  from ne have d: "?d \<noteq> []" by (simp add: trim_def)
  then have "\<not> isWhiteSpace (hd ?d)" using hd_dropWhile by blast
  moreover have "last (trim x) = hd ?d" using d by (simp add: trim_def last_rev)
  ultimately show ?thesis by simp
qed

lemma js_simps: "js [] = []" "js (c # cs) = of_char c # js cs"
  by (simp_all add: js_def)

lemmas eval_simps = js_simps trim_def isWhiteSpace_def parseInt_def signOf_def skipSign_def
  hasHexPrefix_def isRadixDigit_def digitValue_def mathInt_def Let_def findIndex_def splice_js_def

subsection \<open>Steps and runs\<close>

lemma run_Cons:
  "run e (r # rs) s =
     (fst (handle e r s) # fst (run e rs (snd (handle e r s))),
      snd (run e rs (snd (handle e r s))))"
  by (simp add: case_prod_beta)

declare run.simps(2) [simp del]

lemma handle_step:
  "(snd (handle e r s) = s \<and> (\<forall>t. body (fst (handle e r s)) \<noteq> Created t))
   \<or> (\<exists>x now. trim x \<noteq> []
        \<and> fst (handle e r s) =
            \<lparr>status = 201, body = Created \<lparr>todo_id = nextId s, todo_text = trim x, createdAt = now\<rparr>\<rparr>
        \<and> snd (handle e r s) =
            \<lparr>todos = todos s @ [\<lparr>todo_id = nextId s, todo_text = trim x, createdAt = now\<rparr>],
             nextId = nextId s + 1\<rparr>)
   \<or> (\<exists>as b bs. todos s = as @ b # bs
        \<and> fst (handle e r s) = \<lparr>status = 204, body = Empty\<rparr>
        \<and> snd (handle e r s) = \<lparr>todos = as @ bs, nextId = nextId s\<rparr>)"
proof (cases r)
  case GET_todos
  then show ?thesis by (simp add: get_todos_def)
next
  case (POST_todos now reqBody)
  show ?thesis
  proof (cases "rejected (reqBody (js ''text''))")
    case True
    with POST_todos show ?thesis by (simp add: post_todos_rejected)
  next
    case False
    then obtain x where "reqBody (js ''text'') = Some (JString x)" "trim x \<noteq> []"
      using not_rejected_iff by blast
    from post_todos_accepted [of reqBody x now s, OF this] POST_todos \<open>trim x \<noteq> []\<close>
    show ?thesis by auto
  qed
next
  case (DELETE_todo param)
  show ?thesis
  proof (cases "parseInt param")
    case None
    with DELETE_todo show ?thesis by (simp add: delete_todo_def)
  next
    case (Some i)
    show ?thesis
    proof (cases "\<exists>t\<in>set (todos s). todo_id t = i")
      case True
      then obtain as b bs where sp: "todos s = as @ b # bs" "todo_id b = i"
          "\<forall>a\<in>set as. todo_id a \<noteq> i"
        using split_first [of "todos s" "\<lambda>t. todo_id t = i"] by blast
      have "s\<lparr>todos := as @ bs\<rparr> = \<lparr>todos = as @ bs, nextId = nextId s\<rparr>" by simp
      with delete_todo_present [OF Some sp] DELETE_todo
      have "fst (handle e r s) = \<lparr>status = 204, body = Empty\<rparr>"
        and "snd (handle e r s) = \<lparr>todos = as @ bs, nextId = nextId s\<rparr>"
        by simp_all
      with sp(1) show ?thesis by blast
    next
      case False
      then have "\<forall>t\<in>set (todos s). todo_id t \<noteq> i" by simp
      from delete_todo_absent [OF Some this] DELETE_todo show ?thesis by simp
    qed
  qed
next
  case (GET_health now)
  then show ?thesis by (simp add: get_health_def)
qed

lemma handle_inv:
  assumes "store_inv s"
  shows "store_inv (snd (handle e r s))"
  using handle_step [of e r s]
proof (elim disjE exE conjE)
  assume "snd (handle e r s) = s"
  with assms show ?thesis by simp
next
  fix x now
  assume ne: "trim x \<noteq> []"
    and s': "snd (handle e r s) =
      \<lparr>todos = todos s @ [\<lparr>todo_id = nextId s, todo_text = trim x, createdAt = now\<rparr>],
       nextId = nextId s + 1\<rparr>"
  from assms have "nextId s \<notin> todo_id ` set (todos s)" by (auto simp: store_inv_def)
  moreover from ne have "cleanText (trim x)" by (simp add: cleanText_def trim_hd trim_last)
  ultimately show ?thesis using assms s' by (auto simp: store_inv_def)
next
  fix as b bs
  assume "todos s = as @ b # bs"
    and "snd (handle e r s) = \<lparr>todos = as @ bs, nextId = nextId s\<rparr>"
  with assms show ?thesis by (auto simp: store_inv_def)
qed

lemma run_inv: "store_inv s \<Longrightarrow> store_inv (snd (run e rs s))"
proof (induction rs arbitrary: s)
  case Nil
  then show ?case by simp
next
  case (Cons r rs)
  from Cons.prems have "store_inv (snd (handle e r s))" by (rule handle_inv)
  then have "store_inv (snd (run e rs (snd (handle e r s))))" by (rule Cons.IH)
  then show ?case by (simp add: run_Cons)
qed

lemma inv_initial: "store_inv initial"
  by (simp add: store_inv_def initial_def)

lemma run_created_ids:
  "sorted_wrt (<) (map todo_id (created (fst (run e rs s))))
   \<and> (\<forall>t\<in>set (created (fst (run e rs s))). nextId s \<le> todo_id t)"
proof (induction rs arbitrary: s)
  case Nil
  then show ?case by simp
next
  case (Cons r rs)
  let ?s' = "snd (handle e r s)"
  note IH = Cons.IH [of ?s']
  from handle_step [of e r s] show ?case
  proof (elim disjE exE conjE)
    assume "?s' = s" "\<forall>t. body (fst (handle e r s)) \<noteq> Created t"
    with IH show ?thesis by (auto simp: run_Cons split: body.splits)
  next
    fix x now
    assume "fst (handle e r s) =
            \<lparr>status = 201, body = Created \<lparr>todo_id = nextId s, todo_text = trim x, createdAt = now\<rparr>\<rparr>"
      and "?s' = \<lparr>todos = todos s @ [\<lparr>todo_id = nextId s, todo_text = trim x, createdAt = now\<rparr>],
             nextId = nextId s + 1\<rparr>"
    with IH show ?thesis by (fastforce simp: run_Cons)
  next
    fix as b bs
    assume "fst (handle e r s) = \<lparr>status = 204, body = Empty\<rparr>"
      and "?s' = \<lparr>todos = as @ bs, nextId = nextId s\<rparr>"
    with IH show ?thesis by (auto simp: run_Cons)
  qed
qed


lemma run_subseq:
  "subseq (todos (snd (run e rs s))) (todos s @ created (fst (run e rs s)))"
proof (induction rs arbitrary: s)
  case Nil
  then show ?case by simp
next
  case (Cons r rs)
  let ?s' = "snd (handle e r s)"
  let ?rest = "created (fst (run e rs ?s'))"
  have IH: "subseq (todos (snd (run e rs ?s'))) (todos ?s' @ ?rest)" by (rule Cons.IH)
  from handle_step [of e r s] show ?case
  proof (elim disjE exE conjE)
    assume "?s' = s" "\<forall>t. body (fst (handle e r s)) \<noteq> Created t"
    with IH show ?thesis by (auto simp: run_Cons split: body.splits)
  next
    fix x now
    assume "fst (handle e r s) =
            \<lparr>status = 201, body = Created \<lparr>todo_id = nextId s, todo_text = trim x, createdAt = now\<rparr>\<rparr>"
      and "?s' = \<lparr>todos = todos s @ [\<lparr>todo_id = nextId s, todo_text = trim x, createdAt = now\<rparr>],
             nextId = nextId s + 1\<rparr>"
    with IH show ?thesis by (simp add: run_Cons)
  next
    fix as b bs
    assume sp: "todos s = as @ b # bs"
      and f: "fst (handle e r s) = \<lparr>status = 204, body = Empty\<rparr>"
      and s': "?s' = \<lparr>todos = as @ bs, nextId = nextId s\<rparr>"
    have "subseq bs (b # bs)" by (rule list_emb_Cons) simp
    then have "subseq (as @ bs) (as @ b # bs)" by (simp only: subseq_append')
    then have "subseq ((as @ bs) @ ?rest) ((as @ b # bs) @ ?rest)"
      by (rule list_emb_append_mono) simp
    with IH s' have "subseq (todos (snd (run e rs ?s'))) ((as @ b # bs) @ ?rest)"
      using subseq_order.order_trans by fastforce
    with sp f show ?thesis by (simp add: run_Cons)
  qed
qed

lemma subseq_remove1: "subseq (as @ bs) (as @ b # bs)"
proof -
  have "subseq bs (b # bs)" by (rule list_emb_Cons) simp
  then show ?thesis by (simp only: subseq_append')
qed

lemma delete_todo_subseq: "subseq (todos (snd (delete_todo param s))) (todos s)"
proof (cases "parseInt param")
  case None
  then show ?thesis by (simp add: delete_todo_def)
next
  case (Some i)
  show ?thesis
  proof (cases "\<exists>t\<in>set (todos s). todo_id t = i")
    case True
    then obtain as b bs where sp: "todos s = as @ b # bs" "todo_id b = i"
        "\<forall>a\<in>set as. todo_id a \<noteq> i"
      using split_first [of "todos s" "\<lambda>t. todo_id t = i"] by blast
    from delete_todo_present [OF Some sp] sp(1) show ?thesis
      by (simp add: subseq_remove1)
  next
    case False
    then have "\<forall>t\<in>set (todos s). todo_id t \<noteq> i" by simp
    from delete_todo_absent [OF Some this] show ?thesis by simp
  qed
qed

subsection \<open>Reading identifiers\<close>

lemma digit_cases: "d < 10 \<Longrightarrow> d \<in> {0, 1, 2, 3, 4, 5, 6, 7, 8, 9::nat}"
  by auto

lemma digitChar_value: "d < 10 \<Longrightarrow> digitValue (digitChar d) = Some d"
  by (drule digit_cases) (auto simp: digitChar_def digitValue_def)

lemma digitChar_radix: "d < 10 \<Longrightarrow> isRadixDigit 10 (digitChar d)"
  by (simp add: isRadixDigit_def digitChar_value)

lemma digitChar_plain:
  "d < 10 \<Longrightarrow> \<not> isWhiteSpace (digitChar d) \<and> digitChar d \<noteq> 0x2B \<and> digitChar d \<noteq> 0x2D
     \<and> digitChar d \<noteq> 0x78 \<and> digitChar d \<noteq> 0x58"
  by (drule digit_cases) (auto simp: digitChar_def isWhiteSpace_def)

lemma digits_chars: "c \<in> set (digits n) \<Longrightarrow> \<exists>d<10. c = digitChar d"
proof (induction n arbitrary: c rule: digits.induct)
  case (1 n)
  show ?case
  proof (cases "n < 10")
    case True
    with "1.prems" show ?thesis by (subst (asm) digits.simps) auto
  next
    case False
    with "1.prems" have "c \<in> set (digits (n div 10)) \<or> c = digitChar (n mod 10)"
      by (subst (asm) digits.simps) auto
    then show ?thesis
    proof
      assume "c \<in> set (digits (n div 10))"
      with False "1.IH" show ?thesis by blast
    next
      assume "c = digitChar (n mod 10)"
      moreover have "n mod 10 < 10" by simp
      ultimately show ?thesis by blast
    qed
  qed
qed

lemma digits_nonempty: "digits n \<noteq> []"
  by (subst digits.simps) simp

lemma mathInt_snoc:
  "mathInt R (Z @ [c]) = mathInt R Z * R + (case digitValue c of Some d \<Rightarrow> d | None \<Rightarrow> 0)"
  by (simp add: mathInt_def)

lemma mathInt_digits: "mathInt 10 (digits n) = n"
proof (induction n rule: digits.induct)
  case (1 n)
  show ?case
  proof (cases "n < 10")
    case True
    then have "digits n = [digitChar n]" by (subst digits.simps) simp
    with True show ?thesis by (simp add: mathInt_def digitChar_value)
  next
    case False
    then have d: "digits n = digits (n div 10) @ [digitChar (n mod 10)]"
      by (subst digits.simps) simp
    have "n mod 10 < 10" by simp
    then have "digitValue (digitChar (n mod 10)) = Some (n mod 10)" by (rule digitChar_value)
    with "1.IH" False d show ?thesis by (simp add: mathInt_snoc)
  qed
qed

lemma takeWhile_digits: "takeWhile (isRadixDigit 10) (digits n) = digits n"
proof -
  have "\<forall>c\<in>set (digits n). isRadixDigit 10 c"
    using digits_chars digitChar_radix by blast
  then show ?thesis by simp
qed

lemma hd_digits: "\<exists>d<10. hd (digits n) = digitChar d"
  using digits_chars [of "hd (digits n)" n] digits_nonempty [of n] by simp

lemma hexPrefix_second:
  assumes "hasHexPrefix S"
  shows "\<exists>b\<in>set S. b = 0x78 \<or> b = 0x58"
proof -
  from assms have "take 2 S = [0x30, 0x78] \<or> take 2 S = [0x30, 0x58]"
    unfolding hasHexPrefix_def by (rule conjunct2)
  then have "\<exists>b\<in>set (take 2 S). b = 0x78 \<or> b = 0x58"
  proof
    assume t: "take 2 S = [0x30, 0x78]"
    have "\<exists>b\<in>set [0x30, 0x78::jschar]. b = 0x78 \<or> b = 0x58" by simp
    then show ?thesis by (simp only: t)
  next
    assume t: "take 2 S = [0x30, 0x58]"
    have "\<exists>b\<in>set [0x30, 0x58::jschar]. b = 0x78 \<or> b = 0x58" by simp
    then show ?thesis by (simp only: t)
  qed
  then show ?thesis by (blast dest: in_set_takeD)
qed

lemma digits_no_prefix: "\<not> hasHexPrefix (digits n)"
proof
  assume "hasHexPrefix (digits n)"
  from hexPrefix_second [OF this]
  obtain b where b: "b \<in> set (digits n)" "b = 0x78 \<or> b = 0x58" by auto
  from digits_chars [OF b(1)] obtain d where d: "d < 10" "b = digitChar d" by auto
  from digitChar_plain [OF d(1)] have "digitChar d \<noteq> 0x78" "digitChar d \<noteq> 0x58"
    by simp_all
  with b(2) d(2) show False by simp
qed

lemma parseInt_digits: "parseInt (digits n) = Some (int n)"
proof -
  obtain d where d: "d < 10" "hd (digits n) = digitChar d" using hd_digits by blast
  have ne: "digits n \<noteq> []" by (rule digits_nonempty)
  from d have h: "\<not> isWhiteSpace (hd (digits n))" "hd (digits n) \<noteq> 0x2B" "hd (digits n) \<noteq> 0x2D"
    using digitChar_plain by auto
  from ne h(1) have dw: "dropWhile isWhiteSpace (digits n) = digits n"
    by (cases "digits n") auto
  show ?thesis
    unfolding parseInt_def dw Let_def
    using ne h digits_no_prefix [of n]
    by (simp add: signOf_def skipSign_def takeWhile_digits mathInt_digits)
qed

lemma parseInt_minus_digits: "parseInt (0x2D # digits n) = Some (- int n)"
proof -
  have ne: "digits n \<noteq> []" by (rule digits_nonempty)
  have dw: "dropWhile isWhiteSpace (0x2D # digits n) = 0x2D # digits n"
    by (simp add: isWhiteSpace_def)
  show ?thesis
    unfolding parseInt_def dw Let_def
    using ne digits_no_prefix [of n]
    by (simp add: signOf_def skipSign_def takeWhile_digits mathInt_digits)
qed

lemma parseInt_decimal: "parseInt (decimal i) = Some i"
  by (simp add: decimal_def parseInt_digits parseInt_minus_digits)


lemma parseInt_None_iff:
  "(parseInt param = None) =
     (let S = skipSign (dropWhile isWhiteSpace param)
      in if hasHexPrefix S then drop 2 S = [] \<or> \<not> isRadixDigit 16 (hd (drop 2 S))
         else S = [] \<or> \<not> isRadixDigit 10 (hd S))"
  by (simp add: parseInt_def Let_def takeWhile_eq_Nil_iff)

lemma isDecimalDigit_unat: "isDecimalDigit c = (48 \<le> unat c \<and> unat c \<le> 57)"
  by (simp add: isDecimalDigit_def word_le_nat_alt)

lemma isDecimalDigit_radix: "isDecimalDigit c \<Longrightarrow> isRadixDigit 10 c"
proof -
  assume d: "isDecimalDigit c"
  then have "0x30 \<le> c \<and> c \<le> 0x39" by (simp add: isDecimalDigit_def)
  moreover from d have "unat c - 48 < 10" unfolding isDecimalDigit_unat by arith
  ultimately show ?thesis by (simp add: isRadixDigit_def digitValue_def)
qed

lemma isDecimalDigit_plain:
  assumes "isDecimalDigit c"
  shows "\<not> isWhiteSpace c \<and> c \<noteq> 0x2B \<and> c \<noteq> 0x2D \<and> c \<noteq> 0x78 \<and> c \<noteq> 0x58"
proof -
  from assms have u: "48 \<le> unat c" "unat c \<le> 57" by (simp_all add: isDecimalDigit_unat)
  then show ?thesis by (auto simp: isWhiteSpace_def word_le_nat_alt)
qed

lemma denotes_integer_parses: "denotes_integer param \<Longrightarrow> parseInt param \<noteq> None"
proof -
  assume a: "denotes_integer param"
  define d where "d = skipSign param"
  from a have d: "d \<noteq> []" "list_all isDecimalDigit d"
    by (simp_all add: denotes_integer_def d_def skipSign_def Let_def)
  then have hd: "isDecimalDigit (hd d)" by (cases d) auto
  from d have pne: "param \<noteq> []" by (auto simp: d_def skipSign_def)
  have "\<not> isWhiteSpace (hd param)"
  proof (cases "hd param = 0x2B \<or> hd param = 0x2D")
    case True
    then show ?thesis by (auto simp: isWhiteSpace_def)
  next
    case False
    with pne have "d = param" by (simp add: d_def skipSign_def)
    with hd isDecimalDigit_plain [of "hd param"] show ?thesis by simp
  qed
  with pne have dw: "dropWhile isWhiteSpace param = param" by (cases param) auto
  have nohex: "\<not> hasHexPrefix d"
  proof
    assume "hasHexPrefix d"
    from hexPrefix_second [OF this]
    obtain b where b: "b \<in> set d" "b = 0x78 \<or> b = 0x58" by auto
    with d(2) have "isDecimalDigit b" by (simp add: list_all_iff)
    from isDecimalDigit_plain [OF this] have "b \<noteq> 0x78" "b \<noteq> 0x58" by simp_all
    with b(2) show False by simp
  qed
  from hd have "isRadixDigit 10 (hd d)" by (rule isDecimalDigit_radix)
  with d(1) nohex show ?thesis
    by (simp add: parseInt_None_iff dw d_def [symmetric])
qed

subsection \<open>Evaluating examples\<close>

lemma trim_examples:
  "trim (js ''a'') = js ''a''" "trim (js ''b'') = js ''b''" "trim (js ''c'') = js ''c''"
  "trim (js ''  buy milk  '') = js ''buy milk''"
  by (simp_all add: js_simps trim_def isWhiteSpace_def)

lemma js_nonempty: "js (c # cs) \<noteq> []"
  by (simp add: js_simps)

lemma parseInt_examples:
  "parseInt (js ''1'') = Some 1" "parseInt (js ''2'') = Some 2" "parseInt (js ''7'') = Some 7"
  "parseInt (js ''0'') = Some 0" "parseInt (js ''-5'') = Some (- 5)"
  "parseInt (js ''1abc'') = Some 1" "parseInt (js ''abc'') = None"
  by (simp_all add: eval_simps)

lemma decimal_examples:
  "decimal 1 = js ''1''" "decimal 0 = js ''0''" "decimal (- 5) = js ''-5''"
  by (simp_all add: decimal_def digits.simps digitChar_def js_simps)

lemma post_todos_text:
  "trim x \<noteq> [] \<Longrightarrow>
   post_todos now (text_body x) s =
     (\<lparr>status = 201, body = Created \<lparr>todo_id = nextId s, todo_text = trim x, createdAt = now\<rparr>\<rparr>,
      \<lparr>todos = todos s @ [\<lparr>todo_id = nextId s, todo_text = trim x, createdAt = now\<rparr>],
       nextId = nextId s + 1\<rparr>)"
  by (rule post_todos_accepted) (simp_all add: text_body_def)

lemmas run_simps = run_Cons initial_def get_todos_def delete_todo_def post_todos_text
  trim_examples parseInt_examples js_nonempty findIndex_def splice_js_def Let_def

section \<open>The claims\<close>

subsection \<open>Deleting with an identifier that is not an integer\<close>




subsection \<open>Creating with a bad text\<close>

text \<open>
  Claim C2. A POST to \<^verbatim>\<open>/api/todos\<close> whose \<^verbatim>\<open>text\<close> is absent, is not a string, or
  trims to the empty string is answered with status 400 and the body
  \<^verbatim>\<open>{error: "Text is required and must be a non-empty string"}\<close>, and the store after
  the request is the store before it: the same records and the same counter.
\<close>

theorem post_rejects_bad_text:
  assumes "reqBody (js ''text'') = None
     \<or> (\<exists>v. reqBody (js ''text'') = Some v \<and> typeof (Some v) \<noteq> TString)
     \<or> (\<exists>x. reqBody (js ''text'') = Some (JString x) \<and> trim x = [])"
  shows "post_todos now reqBody s =
     (\<lparr>status = 400, body = Error ''Text is required and must be a non-empty string''\<rparr>, s)"
proof -
  from assms have "rejected (reqBody (js ''text''))"
    by (auto simp: rejected_def)
  then show ?thesis by (rule post_todos_rejected)
qed

text \<open>No \<^verbatim>\<open>text\<close>, the empty string, three spaces, and a number.\<close>

theorem post_rejects_bad_text_witness:
  "post_todos (js ''2024-05-01T10:00:00.000Z'') Map.empty initial =
     (\<lparr>status = 400, body = Error ''Text is required and must be a non-empty string''\<rparr>, initial)
   \<and> post_todos (js ''2024-05-01T10:00:00.000Z'') (text_body (js [])) initial =
     (\<lparr>status = 400, body = Error ''Text is required and must be a non-empty string''\<rparr>, initial)
   \<and> post_todos (js ''2024-05-01T10:00:00.000Z'') (text_body (js ''   '')) initial =
     (\<lparr>status = 400, body = Error ''Text is required and must be a non-empty string''\<rparr>, initial)
   \<and> post_todos (js ''2024-05-01T10:00:00.000Z'') [js ''text'' \<mapsto> JNumber 5] initial =
     (\<lparr>status = 400, body = Error ''Text is required and must be a non-empty string''\<rparr>, initial)"
proof -
  let ?now = "js ''2024-05-01T10:00:00.000Z''"
  have b: "trim (js []) = []" "trim (js ''   '') = []"
    by (simp_all add: js_simps trim_def isWhiteSpace_def)
  show ?thesis
    using post_rejects_bad_text [of Map.empty ?now initial]
      post_rejects_bad_text [of "text_body (js [])" ?now initial]
      post_rejects_bad_text [of "text_body (js ''   '')" ?now initial]
      post_rejects_bad_text [of "[js ''text'' \<mapsto> JNumber 5]" ?now initial]
      b
    by (simp add: text_body_def)
qed

subsection \<open>Deleting by identifier\<close>



subsection \<open>Identifiers are never shared\<close>



subsection \<open>Identifiers only grow\<close>



subsection \<open>The list keeps the order of insertion\<close>

text \<open>
  Claim C6. After any sequence of requests served from the empty store,
  \<^verbatim>\<open>GET /api/todos\<close> is answered with status 200 and all the records of the store, which
  stand in the order in which they were created: they are a subsequence of the
  records created so far. A DELETE, in any store, leaves a subsequence of the records:
  the records that stay keep their order.
\<close>

theorem list_in_insertion_order:
  "fst (handle e GET_todos (snd (run e rs initial))) =
     \<lparr>status = 200, body = Todos (todos (snd (run e rs initial)))\<rparr>
   \<and> subseq (todos (snd (run e rs initial))) (created (fst (run e rs initial)))
   \<and> subseq (todos (snd (delete_todo param s))) (todos s)"
proof -
  have a: "fst (handle e GET_todos (snd (run e rs initial))) =
     \<lparr>status = 200, body = Todos (todos (snd (run e rs initial)))\<rparr>"
    by (simp add: get_todos_def)
  have b: "subseq (todos (snd (run e rs initial))) (created (fst (run e rs initial)))"
    using run_subseq [of e rs initial] by (simp add: initial_def)
  have c: "subseq (todos (snd (delete_todo param s))) (todos s)"
    by (rule delete_todo_subseq)
  from a b c show ?thesis by simp
qed

text \<open>Three records are created and the second is deleted.\<close>

theorem list_in_insertion_order_witness:
  "fst (handle env0 GET_todos
     (snd (run env0
       [POST_todos (js ''T1'') (text_body (js ''a'')),
        POST_todos (js ''T2'') (text_body (js ''b'')),
        POST_todos (js ''T3'') (text_body (js ''c'')),
        DELETE_todo (js ''2'')] initial)))
   = \<lparr>status = 200,
      body = Todos [\<lparr>todo_id = 1, todo_text = js ''a'', createdAt = js ''T1''\<rparr>,
                    \<lparr>todo_id = 3, todo_text = js ''c'', createdAt = js ''T3''\<rparr>]\<rparr>
   \<and> subseq [\<lparr>todo_id = 1, todo_text = js ''a'', createdAt = js ''T1''\<rparr>,
             \<lparr>todo_id = 3, todo_text = js ''c'', createdAt = js ''T3''\<rparr>]
       (created (fst (run env0
       [POST_todos (js ''T1'') (text_body (js ''a'')),
        POST_todos (js ''T2'') (text_body (js ''b'')),
        POST_todos (js ''T3'') (text_body (js ''c'')),
        DELETE_todo (js ''2'')] initial)))"
proof -
  let ?rs = "[POST_todos (js ''T1'') (text_body (js ''a'')),
        POST_todos (js ''T2'') (text_body (js ''b'')),
        POST_todos (js ''T3'') (text_body (js ''c'')),
        DELETE_todo (js ''2'')]"
  have "todos (snd (run env0 ?rs initial)) =
      [\<lparr>todo_id = 1, todo_text = js ''a'', createdAt = js ''T1''\<rparr>,
       \<lparr>todo_id = 3, todo_text = js ''c'', createdAt = js ''T3''\<rparr>]"
    by (simp add: run_simps)
  with list_in_insertion_order [of env0 ?rs] show ?thesis by simp
qed

subsection \<open>The scenario\<close>

text \<open>
  Claim C7. From the empty store: creating \<^verbatim>\<open>a\<close> and then \<^verbatim>\<open>b\<close> gives the records 1
  and 2, and the list shows them in that order; deleting 1 leaves the list with record
  2 alone; creating \<^verbatim>\<open>c\<close> then gives the new record the identifier 3, not 1.
\<close>

theorem todo_scenario:
  "run e [POST_todos t1 (text_body (js ''a'')),
          POST_todos t2 (text_body (js ''b'')),
          GET_todos,
          DELETE_todo (js ''1''),
          GET_todos,
          POST_todos t3 (text_body (js ''c''))] initial
   = ([\<lparr>status = 201, body = Created \<lparr>todo_id = 1, todo_text = js ''a'', createdAt = t1\<rparr>\<rparr>,
       \<lparr>status = 201, body = Created \<lparr>todo_id = 2, todo_text = js ''b'', createdAt = t2\<rparr>\<rparr>,
       \<lparr>status = 200, body = Todos [\<lparr>todo_id = 1, todo_text = js ''a'', createdAt = t1\<rparr>,
                                     \<lparr>todo_id = 2, todo_text = js ''b'', createdAt = t2\<rparr>]\<rparr>,
       \<lparr>status = 204, body = Empty\<rparr>,
       \<lparr>status = 200, body = Todos [\<lparr>todo_id = 2, todo_text = js ''b'', createdAt = t2\<rparr>]\<rparr>,
       \<lparr>status = 201, body = Created \<lparr>todo_id = 3, todo_text = js ''c'', createdAt = t3\<rparr>\<rparr>],
      \<lparr>todos = [\<lparr>todo_id = 2, todo_text = js ''b'', createdAt = t2\<rparr>,
                \<lparr>todo_id = 3, todo_text = js ''c'', createdAt = t3\<rparr>],
       nextId = 4\<rparr>)"
  by (simp add: run_simps)

theorem todo_scenario_witness:
  "snd (run env0 [POST_todos (js ''T1'') (text_body (js ''a'')),
          POST_todos (js ''T2'') (text_body (js ''b'')),
          GET_todos,
          DELETE_todo (js ''1''),
          GET_todos,
          POST_todos (js ''T3'') (text_body (js ''c''))] initial)
   = \<lparr>todos = [\<lparr>todo_id = 2, todo_text = js ''b'', createdAt = js ''T2''\<rparr>,
               \<lparr>todo_id = 3, todo_text = js ''c'', createdAt = js ''T3''\<rparr>],
      nextId = 4\<rparr>"
  using todo_scenario [of env0 "js ''T1''" "js ''T2''" "js ''T3''"] by simp

subsection \<open>The stored text is the trimmed text\<close>

text \<open>
  Claim C8. When a POST is accepted (status 201), the \<^verbatim>\<open>text\<close> submitted is a string
  \<open>x\<close>, and the record appended to the store carries \<open>trim x\<close>: \<open>x\<close> is \<open>trim x\<close>
  with white space, and only white space, before and after it, and \<open>trim x\<close> is not
  empty and neither begins nor ends with white space. So, after any sequence of
  requests served from the empty store, every stored text is non-empty and has no white
  space around it.
\<close>

theorem accepted_text_trimmed:
  "(status (fst (post_todos now reqBody s)) = 201 \<longrightarrow>
      (\<exists>x. reqBody (js ''text'') = Some (JString x)
         \<and> snd (post_todos now reqBody s) =
             \<lparr>todos = todos s @ [\<lparr>todo_id = nextId s, todo_text = trim x, createdAt = now\<rparr>],
              nextId = nextId s + 1\<rparr>
         \<and> (\<exists>l r. x = l @ trim x @ r
               \<and> (\<forall>c\<in>set l. isWhiteSpace c) \<and> (\<forall>c\<in>set r. isWhiteSpace c))
         \<and> trim x \<noteq> [] \<and> \<not> isWhiteSpace (hd (trim x)) \<and> \<not> isWhiteSpace (last (trim x))))
   \<and> (\<forall>t\<in>set (todos (snd (run e rs initial))).
         todo_text t \<noteq> [] \<and> \<not> isWhiteSpace (hd (todo_text t))
         \<and> \<not> isWhiteSpace (last (todo_text t)))"
proof (intro conjI impI)
  assume st: "status (fst (post_todos now reqBody s)) = 201"
  have "\<not> rejected (reqBody (js ''text''))"
  proof
    assume "rejected (reqBody (js ''text''))"
    then have "status (fst (post_todos now reqBody s)) = 400"
      by (simp add: post_todos_rejected)
    with st show False by simp
  qed
  then obtain x where x: "reqBody (js ''text'') = Some (JString x)" "trim x \<noteq> []"
    using not_rejected_iff by blast
  from post_todos_accepted [of reqBody x now s, OF x]
  have "snd (post_todos now reqBody s) =
      \<lparr>todos = todos s @ [\<lparr>todo_id = nextId s, todo_text = trim x, createdAt = now\<rparr>],
       nextId = nextId s + 1\<rparr>"
    by simp
  with x trim_decompose [of x] trim_hd [OF x(2)] trim_last [OF x(2)]
  show "\<exists>x. reqBody (js ''text'') = Some (JString x)
         \<and> snd (post_todos now reqBody s) =
             \<lparr>todos = todos s @ [\<lparr>todo_id = nextId s, todo_text = trim x, createdAt = now\<rparr>],
              nextId = nextId s + 1\<rparr>
         \<and> (\<exists>l r. x = l @ trim x @ r
               \<and> (\<forall>c\<in>set l. isWhiteSpace c) \<and> (\<forall>c\<in>set r. isWhiteSpace c))
         \<and> trim x \<noteq> [] \<and> \<not> isWhiteSpace (hd (trim x)) \<and> \<not> isWhiteSpace (last (trim x))"
    by blast
next
  show "\<forall>t\<in>set (todos (snd (run e rs initial))).
         todo_text t \<noteq> [] \<and> \<not> isWhiteSpace (hd (todo_text t))
         \<and> \<not> isWhiteSpace (last (todo_text t))"
    using run_inv [OF inv_initial, of e rs] by (simp add: store_inv_def cleanText_def)
qed

text \<open>Submitting \<^verbatim>\<open>"  buy milk  "\<close> stores \<^verbatim>\<open>"buy milk"\<close>.\<close>

theorem accepted_text_trimmed_witness:
  "status (fst (post_todos (js ''T1'') (text_body (js ''  buy milk  '')) initial)) = 201
   \<and> todos (snd (post_todos (js ''T1'') (text_body (js ''  buy milk  '')) initial)) =
       [\<lparr>todo_id = 1, todo_text = js ''buy milk'', createdAt = js ''T1''\<rparr>]
   \<and> todos (snd (run env0 [POST_todos (js ''T1'') (text_body (js ''  buy milk  ''))] initial)) =
       [\<lparr>todo_id = 1, todo_text = js ''buy milk'', createdAt = js ''T1''\<rparr>]"
proof -
  let ?b = "text_body (js ''  buy milk  '')"
  have r: "todos (snd (run env0 [POST_todos (js ''T1'') ?b] initial)) =
       [\<lparr>todo_id = 1, todo_text = js ''buy milk'', createdAt = js ''T1''\<rparr>]"
    by (simp add: run_simps)
  have st: "status (fst (post_todos (js ''T1'') ?b initial)) = 201"
    by (simp add: post_todos_text trim_examples js_nonempty)
  from accepted_text_trimmed [of "js ''T1''" ?b initial] st
  obtain x where x: "?b (js ''text'') = Some (JString x)"
    and s': "snd (post_todos (js ''T1'') ?b initial) =
             \<lparr>todos = todos initial @ [\<lparr>todo_id = nextId initial, todo_text = trim x,
                createdAt = js ''T1''\<rparr>], nextId = nextId initial + 1\<rparr>"
    by blast
  from x have "x = js ''  buy milk  ''" by (simp add: text_body_def)
  with s' st r show ?thesis by (simp add: trim_examples initial_def)
qed

subsection \<open>Requests that only read\<close>

text \<open>
  Claim C9. Serving \<^verbatim>\<open>GET /api/todos\<close> or \<^verbatim>\<open>GET /api/health\<close> leaves the store as it
  was, records, order and counter; a request that changes the store is a POST to
  \<^verbatim>\<open>/api/todos\<close> or a DELETE of \<^verbatim>\<open>/api/todos/:id\<close>.
\<close>

theorem reads_leave_store:
  "snd (handle e GET_todos s) = s
   \<and> snd (handle e (GET_health now) s) = s
   \<and> (snd (handle e r s) \<noteq> s \<longrightarrow>
        (\<exists>now' reqBody. r = POST_todos now' reqBody) \<or> (\<exists>param. r = DELETE_todo param))"
  by (cases r) (simp_all add: get_todos_def get_health_def)

theorem reads_leave_store_witness:
  "snd (handle env0 GET_todos initial) = initial
   \<and> snd (handle env0 (GET_health (js ''2024-05-01T10:00:00.000Z'')) initial) = initial
   \<and> snd (handle env0 (POST_todos (js ''T1'') (text_body (js ''a''))) initial) \<noteq> initial
   \<and> ((\<exists>now' reqBody. POST_todos (js ''T1'') (text_body (js ''a'')) = POST_todos now' reqBody)
      \<or> (\<exists>param. POST_todos (js ''T1'') (text_body (js ''a'')) = DELETE_todo param))"
proof -
  let ?r = "POST_todos (js ''T1'') (text_body (js ''a''))"
  have "snd (handle env0 ?r initial) \<noteq> initial"
    by (simp add: post_todos_text trim_examples js_nonempty initial_def)
  then show ?thesis
    using reads_leave_store [of env0 initial "js ''2024-05-01T10:00:00.000Z''" ?r]
    by blast
qed

subsection \<open>Deleting an identifier that is not positive\<close>

text \<open>
  Claim C10. An integer \<open>i \<le> 0\<close>, written in decimal, parses as \<open>i\<close>: it is a
  well-formed identifier. After any sequence of requests served from the empty store,
  a DELETE whose identifier parses as such an \<open>i\<close> is answered with status 404 and
  \<^verbatim>\<open>{error: "Todo not found"}\<close>, not with 400, and the store is unchanged; for every
  record of the store, and every record ever created, has an identifier that is at
  least 1, the counter having started at 1.
\<close>

theorem nonpositive_id_not_found:
  assumes "i \<le> 0"
  shows "parseInt (decimal i) = Some i
   \<and> (parseInt param = Some i \<longrightarrow>
        delete_todo param (snd (run e rs initial)) =
          (\<lparr>status = 404, body = Error ''Todo not found''\<rparr>, snd (run e rs initial)))
   \<and> (\<forall>t\<in>set (todos (snd (run e rs initial))). 1 \<le> todo_id t)
   \<and> (\<forall>t\<in>set (created (fst (run e rs initial))). 1 \<le> todo_id t)"
proof (intro conjI impI)
  show "parseInt (decimal i) = Some i" by (rule parseInt_decimal)
next
  show "\<forall>t\<in>set (created (fst (run e rs initial))). 1 \<le> todo_id t"
    using run_created_ids [of e rs initial] by (simp add: initial_def)
next
  have ids: "\<forall>t\<in>set (todos (snd (run e rs initial))). 1 \<le> todo_id t"
    using run_inv [OF inv_initial, of e rs] by (simp add: store_inv_def)
  then show "\<forall>t\<in>set (todos (snd (run e rs initial))). 1 \<le> todo_id t" .
  assume p: "parseInt param = Some i"
  from ids assms have "\<forall>t\<in>set (todos (snd (run e rs initial))). todo_id t \<noteq> i" by auto
  with p show "delete_todo param (snd (run e rs initial)) =
      (\<lparr>status = 404, body = Error ''Todo not found''\<rparr>, snd (run e rs initial))"
    by (rule delete_todo_absent)
qed

text \<open>\<^verbatim>\<open>DELETE /api/todos/-5\<close> and \<^verbatim>\<open>DELETE /api/todos/0\<close> after one record was created.\<close>

theorem nonpositive_id_not_found_witness:
  "parseInt (decimal (- 5)) = Some (- 5)
   \<and> delete_todo (decimal (- 5))
        (snd (run env0 [POST_todos (js ''T1'') (text_body (js ''a''))] initial))
      = (\<lparr>status = 404, body = Error ''Todo not found''\<rparr>,
         \<lparr>todos = [\<lparr>todo_id = 1, todo_text = js ''a'', createdAt = js ''T1''\<rparr>], nextId = 2\<rparr>)
   \<and> parseInt (decimal 0) = Some 0
   \<and> delete_todo (decimal 0)
        (snd (run env0 [POST_todos (js ''T1'') (text_body (js ''a''))] initial))
      = (\<lparr>status = 404, body = Error ''Todo not found''\<rparr>,
         \<lparr>todos = [\<lparr>todo_id = 1, todo_text = js ''a'', createdAt = js ''T1''\<rparr>], nextId = 2\<rparr>)"
proof -
  let ?rs = "[POST_todos (js ''T1'') (text_body (js ''a''))]"
  have s: "snd (run env0 ?rs initial) =
      \<lparr>todos = [\<lparr>todo_id = 1, todo_text = js ''a'', createdAt = js ''T1''\<rparr>], nextId = 2\<rparr>"
    by (simp add: run_simps)
  have a: "(- 5::int) \<le> 0" and b: "(0::int) \<le> 0" by simp_all
  from nonpositive_id_not_found [OF a, of "decimal (- 5)" env0 ?rs]
    nonpositive_id_not_found [OF b, of "decimal 0" env0 ?rs] s
  show ?thesis by simp
qed

end
